theory Spec2Isabelle
  imports Main
begin

section \<open>The storage driver of GoToSocial (internal/storage/storage.go)\<close>

text \<open>
  The driver wraps a key-value store (a directory on disk or an S3 bucket) and, for S3
  without proxying, hands out presigned GET URLs that it keeps in a cache with a time to
  live. Everything the driver calls but does not implement (the store, the S3 client, the
  clock, the MIME table, the configuration) is an external collaborator: its answers are
  the fields of a \<open>world\<close> record, and every call the driver makes to it is recorded
  as an \<open>event\<close>.
\<close>

subsection \<open>Time\<close>

text \<open>
  \<open>time.Duration\<close> counts nanoseconds; \<open>time.Time\<close> is an instant, here the
  nanoseconds since some epoch. Both are integers; the constants below are far inside the
  64-bit range of \<open>time.Duration\<close> (see \<open>urlCacheTTL_fits_int64\<close>).
\<close>

type_synonym Duration = int
type_synonym Time = int

definition time_Second :: Duration where
  "time_Second = 1000000000"

definition time_Minute :: Duration where
  "time_Minute = 60 * time_Second"

definition time_Hour :: Duration where
  "time_Hour = 60 * time_Minute"

definition urlCacheTTL :: Duration where
  "urlCacheTTL = time_Hour * 24"

definition urlCacheExpiryFrequency :: Duration where
  "urlCacheExpiryFrequency = time_Minute * 5"

subsection \<open>Errors\<close>

text \<open>
  A Go \<open>error\<close> value: a message, and for an error built with the verb \<open>%w\<close> the
  error it wraps. \<open>error_Error\<close> is the method \<open>Error()\<close>, which is also what the
  verb \<open>%v\<close> prints.
\<close>

datatype error = Error string | Wrapped string error

fun error_Error :: "error \<Rightarrow> string" where
  "error_Error (Error msg) = msg"
| "error_Error (Wrapped msg cause) = msg"

text \<open>\<open>fmt.Errorf(prefix + "%w", err)\<close>: the message is the prefix followed by the
  message of the wrapped error.\<close>

definition fmt_Errorf_w :: "string \<Rightarrow> error \<Rightarrow> error" where
  "fmt_Errorf_w prefix err = Wrapped (prefix @ error_Error err) err"

text \<open>A run-time panic: the only one this file can raise is the dereference of a nil
  pointer.\<close>

datatype panic = NilPointerDereference

subsection \<open>URLs (net/url)\<close>

text \<open>
  The fields of \<open>url.URL\<close> that a presigned GET URL carries. The fields left out
  (\<open>Opaque\<close>, \<open>User\<close>, \<open>RawPath\<close>, \<open>OmitHost\<close>, \<open>ForceQuery\<close>,
  \<open>Fragment\<close>, \<open>RawFragment\<close>) have their zero values throughout.
\<close>

record url =
  Scheme :: string
  Host :: string
  Path :: string
  RawQuery :: string

text \<open>A byte is an ASCII letter or digit (the first test of \<open>shouldEscape\<close>).\<close>

definition alnum :: "char \<Rightarrow> bool" where
  "alnum c = (let n = (of_char c :: nat) in
     (97 \<le> n \<and> n \<le> 122) \<or> (65 \<le> n \<and> n \<le> 90) \<or> (48 \<le> n \<and> n \<le> 57))"

datatype encoding = encodePath | encodeHost

text \<open>
  \<open>shouldEscape(c, mode)\<close> of net/url, for the two modes \<open>URL.String\<close> needs here.
  A host keeps letters, digits, the sub-delimiters, the colon, the brackets, the angle
  brackets, the double quote and the four marks; a path keeps letters, digits, the marks
  and every reserved character but the question mark. \<open>CHR 0x27\<close> is the apostrophe and
  \<open>CHR 0x22\<close> the double quote.
\<close>

definition shouldEscape :: "char \<Rightarrow> encoding \<Rightarrow> bool" where
  "shouldEscape c mode =
     (if alnum c then False
      else if mode = encodeHost \<and> c \<in> set (''!$&()*+,;=:[]<>'' @ [CHR 0x27, CHR 0x22]) then False
      else if c \<in> set ''-_.~'' then False
      else if c \<in> set ''$&+,/:;=?@'' \<and> mode = encodePath then c = CHR ''?''
      else True)"

definition upperhex :: string where
  "upperhex = ''0123456789ABCDEF''"

text \<open>\<open>escape(s, mode)\<close>: each byte that must be escaped becomes a percent sign and its
  two upper-case hexadecimal digits; the other bytes are kept.\<close>

fun escape :: "string \<Rightarrow> encoding \<Rightarrow> string" where
  "escape [] mode = []"
| "escape (c # s) mode =
     (if shouldEscape c mode
      then CHR ''%'' # upperhex ! (of_char c div 16) # upperhex ! (of_char c mod 16) # escape s mode
      else c # escape s mode)"

text \<open>\<open>URL.EscapedPath()\<close> with an empty \<open>RawPath\<close>.\<close>

definition EscapedPath :: "url \<Rightarrow> string" where
  "EscapedPath u = (if Path u = ''*'' then ''*'' else escape (Path u) encodePath)"

text \<open>
  \<open>URL.String()\<close>: the scheme and a colon; two slashes and the escaped host when there
  is a scheme or a host; the escaped path, after a slash when it is relative and a host
  is present, or after \<open>./\<close> when nothing was written yet and its first segment
  holds a colon; a question mark and the raw query when there is one.
\<close>

definition url_String :: "url \<Rightarrow> string" where
  "url_String u =
     (let buf0 = (if Scheme u \<noteq> [] then Scheme u @ '':'' else []);
          buf1 = (if Scheme u \<noteq> [] \<or> Host u \<noteq> []
                  then buf0 @ (if Host u \<noteq> [] \<or> Path u \<noteq> [] then ''//'' else [])
                            @ (if Host u \<noteq> [] then escape (Host u) encodeHost else [])
                  else buf0);
          path = EscapedPath u;
          buf2 = (if path \<noteq> [] \<and> hd path \<noteq> CHR ''/'' \<and> Host u \<noteq> [] then buf1 @ ''/'' else buf1);
          buf3 = (if buf2 = [] \<and> CHR '':'' \<in> set (takeWhile (\<lambda>c. c \<noteq> CHR ''/'') path)
                  then buf2 @ ''./'' else buf2);
          buf4 = buf3 @ path
      in if RawQuery u \<noteq> [] then buf4 @ ''?'' @ RawQuery u else buf4)"

subsection \<open>File name extensions (path.Ext)\<close>

text \<open>
  \<open>path.Ext\<close> walks the path backwards from its last byte, stops with the empty string
  at a slash or at the start, and returns the rest of the path from the first dot it
  meets. \<open>ext_scan\<close> is that loop: its first argument is what is left of the path,
  reversed, and the second the bytes already passed.
\<close>

fun ext_scan :: "string \<Rightarrow> string \<Rightarrow> string" where
  "ext_scan [] seen = []"
| "ext_scan (c # cs) seen =
     (if c = CHR ''/'' then []
      else if c = CHR ''.'' then c # seen
      else ext_scan cs (c # seen))"

definition path_Ext :: "string \<Rightarrow> string" where
  "path_Ext p = ext_scan (rev p) []"

subsection \<open>The external collaborators\<close>

text \<open>\<open>url.Values\<close>: the query parameters added to a signing request, each name with
  its list of values. The nil map is the empty list.\<close>

type_synonym Values = "(string \<times> string list) list"

text \<open>
  The calls the driver makes to its collaborators, in the order it makes them: a write of
  bytes under a key and the removal of a key (the store), a request to sign a GET URL for
  a bucket and a key with a validity and extra query parameters (the S3 client), and a
  warning written to the log.
\<close>

datatype event =
    CallWriteBytes string string
  | CallRemove string
  | CallPresignedGetObject string string Duration Values
  | LogWarnf string

text \<open>
  What the collaborators answer during one call of the driver. Three instants fall
  inside one call of \<open>URL\<close>, in this order: \<open>signedAt\<close>, the instant the S3
  client puts into the signature, from which the requested validity runs; \<open>now\<close>,
  what \<open>time.Now()\<close> returns in the driver; \<open>stampedAt\<close>, the clock reading
  the cache takes inside \<open>Set\<close>. \<open>WriteBytes\<close>, \<open>Remove\<close>, \<open>Entries\<close> and
  \<open>WalkFailure\<close> are the store (go-store): the bytes written or an error, the error
  of a removal if any, the keys its own \<open>WalkKeys\<close> enumerates in its order and the
  error that enumeration ends with if any. \<open>PresignedGetObject\<close> is the S3 client
  (minio). \<open>TypeByExtension\<close> is the MIME table of the standard library.
  \<open>gtserror_Newf\<close> is the error constructor of internal/gtserror, which is not part of
  this file: it gets the formatted message and the wrapped error. \<open>OpenDisk\<close> (base
  path) and \<open>OpenS3\<close> (endpoint, bucket, access key, secret key, TLS) are the errors
  of opening a store, if any.
\<close>

record world =
  signedAt :: Time
  now :: Time
  stampedAt :: Time
  WriteBytes :: "string \<Rightarrow> string \<Rightarrow> error + int"
  Remove :: "string \<Rightarrow> error option"
  Entries :: "string list"
  WalkFailure :: "error option"
  PresignedGetObject :: "string \<Rightarrow> string \<Rightarrow> Duration \<Rightarrow> Values \<Rightarrow> error + url"
  TypeByExtension :: "string \<Rightarrow> string"
  gtserror_Newf :: "string \<Rightarrow> error \<Rightarrow> error"
  OpenDisk :: "string \<Rightarrow> error option"
  OpenS3 :: "string \<Rightarrow> string \<Rightarrow> string \<Rightarrow> string \<Rightarrow> bool \<Rightarrow> error option"

text \<open>The configuration values the constructors read (internal/config).\<close>

record config =
  StorageBackend :: string
  StorageLocalBasePath :: string
  StorageS3Endpoint :: string
  StorageS3AccessKey :: string
  StorageS3SecretKey :: string
  StorageS3UseSSL :: bool
  StorageS3BucketName :: string
  StorageS3Proxy :: bool

subsection \<open>Data model\<close>

text \<open>\<open>PresignedURL\<close>: a signed URL and the instant at which the link expires.\<close>

record PresignedURL =
  URL :: url
  Expiry :: Time

text \<open>
  The dynamic type of the interface value \<open>storage.Storage\<close>: the disk store (with its
  base path), the S3 store (with its endpoint and bucket), or anything else, the nil
  interface included. The assertion \<open>d.Storage.(*storage.S3Storage)\<close> succeeds on the
  second only.
\<close>

datatype Storage = DiskStorage string | S3Storage string string | OtherStorage

fun is_S3Storage :: "Storage \<Rightarrow> bool" where
  "is_S3Storage (S3Storage endpoint bucket) = True"
| "is_S3Storage _ = False"

text \<open>
  Modelled from the spec: the cache \<open>ttl.Cache\<close> of the library go-cache, which is
  not part of this repository's sources. The spec describes it as keyed by storage key,
  each entry holding the value and the entry's own expiry instant, with a time to live
  fixed at construction, a bounded capacity with the least recently used entry evicted
  first, an insertion that stamps the entry with the clock plus the time to live, and a
  periodic sweep that removes expired entries. The library keeps the entries in a list
  ordered by use (its \<open>LRUMap\<close>), the most recently used in front; that order decides
  what the capacity and the sweep evict, so the field \<open>Cache\<close> is that list.
\<close>

record Entry =
  Key :: string
  Value :: PresignedURL
  EntryExpiry :: Time

record ttl_Cache =
  TTL :: Duration
  Capacity :: nat
  SweepEvery :: "Duration option"
  Cache :: "Entry list"

text \<open>Modelled from the spec: \<open>ttl.New(len, cap, ttl)\<close>, an empty cache whose entries
  live for \<open>ttl\<close>, with no sweep scheduled yet.\<close>

definition ttl_New :: "nat \<Rightarrow> nat \<Rightarrow> Duration \<Rightarrow> ttl_Cache" where
  "ttl_New len cap ttl = \<lparr>TTL = ttl, Capacity = cap, SweepEvery = None, Cache = []\<rparr>"

text \<open>Modelled from the spec: \<open>Start(freq)\<close> schedules the background sweep with the
  period \<open>freq\<close>.\<close>

definition ttl_Start :: "Duration \<Rightarrow> ttl_Cache \<Rightarrow> ttl_Cache" where
  "ttl_Start freq c = c\<lparr>SweepEvery := Some freq\<rparr>"

text \<open>
  Modelled from the spec: \<open>LRUMap.Get(key)\<close>, the lookup in the cache's list, which is
  what \<open>URL\<close> calls on the field \<open>Cache\<close>. It finds the entry of the key and, as a
  use of the entry, moves it to the front of the list; it touches neither the value nor
  the expiry instant. The result is the entry, if any, and the list afterwards.
\<close>

definition LRUMap_Get :: "string \<Rightarrow> Entry list \<Rightarrow> Entry option \<times> Entry list" where
  "LRUMap_Get key es =
     (case find (\<lambda>e. Key e = key) es of
        None \<Rightarrow> (None, es)
      | Some e \<Rightarrow> (Some e, e # filter (\<lambda>e'. Key e' \<noteq> key) es))"

text \<open>
  Modelled from the spec: \<open>Set(key, value)\<close> with the clock reading \<open>t\<close>. The entry
  expires at \<open>t\<close> plus the time to live. An entry the key already has is moved to the
  front and gets the new value and expiry. Otherwise a new entry is put in front, and
  when the list is already at capacity the entry at its back, the least recently used,
  is dropped to make room.
\<close>

definition ttl_Set :: "string \<Rightarrow> PresignedURL \<Rightarrow> Time \<Rightarrow> ttl_Cache \<Rightarrow> ttl_Cache" where
  "ttl_Set key v t c =
     (case LRUMap_Get key (Cache c) of
        (Some item, es) \<Rightarrow>
          c\<lparr>Cache := item\<lparr>Value := v, EntryExpiry := t + TTL c\<rparr> # tl es\<rparr>
      | (None, es) \<Rightarrow>
          c\<lparr>Cache := \<lparr>Key = key, Value = v, EntryExpiry = t + TTL c\<rparr>
                        # (if Capacity c \<le> length es then butlast es else es)\<rparr>)"

text \<open>
  Modelled from the spec: one pass of the sweep at the instant \<open>t\<close>. The library
  walks the list from the front to the first entry whose expiry instant has passed and
  drops that entry and all entries behind it.
\<close>

definition ttl_Sweep :: "Time \<Rightarrow> ttl_Cache \<Rightarrow> ttl_Cache" where
  "ttl_Sweep t c = c\<lparr>Cache := takeWhile (\<lambda>e. \<not> EntryExpiry e < t) (Cache c)\<rparr>"

text \<open>\<open>Driver\<close>: the store, and the parameters used with S3 only. \<open>PresignedCache\<close>
  is a pointer: \<open>None\<close> is nil.\<close>

record Driver =
  Storage :: Storage
  Proxy :: bool
  Bucket :: string
  PresignedCache :: "ttl_Cache option"

text \<open>The background sweep, as a step of the driver's state at the instant \<open>t\<close>.\<close>

definition Sweep :: "Time \<Rightarrow> Driver \<Rightarrow> Driver" where
  "Sweep t d = d\<lparr>PresignedCache := map_option (ttl_Sweep t) (PresignedCache d)\<rparr>"

subsection \<open>The operations of the driver\<close>

text \<open>\<open>Put\<close> and \<open>Delete\<close> hand the call to the store.\<close>

definition Put :: "world \<Rightarrow> Driver \<Rightarrow> string \<Rightarrow> string \<Rightarrow> (error + int) \<times> event list" where
  "Put w d key v = (WriteBytes w key v, [CallWriteBytes key v])"

definition Delete :: "world \<Rightarrow> Driver \<Rightarrow> string \<Rightarrow> error option \<times> event list" where
  "Delete w d key = (Remove w key, [CallRemove key])"

text \<open>
  Modelled from the spec: the store's own \<open>WalkKeys\<close> (library go-store, not part
  of this repository's sources). It calls the function it is given on each of its entries
  in turn and stops at the first error that function returns, which it returns itself;
  when no call fails it returns the error of the enumeration itself, if any. The function
  may have effects: it maps a state to its error and the new state.
\<close>

fun storage_WalkKeys ::
  "(string \<Rightarrow> 's \<Rightarrow> error option \<times> 's) \<Rightarrow> string list \<Rightarrow> error option \<Rightarrow> 's \<Rightarrow> error option \<times> 's"
where
  "storage_WalkKeys walkFn [] failure s = (failure, s)"
| "storage_WalkKeys walkFn (key # keys) failure s =
     (case walkFn key s of
        (Some err, s') \<Rightarrow> (Some err, s')
      | (None, s') \<Rightarrow> storage_WalkKeys walkFn keys failure s')"

text \<open>
  \<open>WalkKeys\<close>. The driver passes the store a function that returns nil for the key
  \<open>store.lock\<close> without calling the visitor, and calls the visitor on every other
  key.
\<close>

definition WalkKeys ::
  "world \<Rightarrow> Driver \<Rightarrow> (string \<Rightarrow> 's \<Rightarrow> error option \<times> 's) \<Rightarrow> 's \<Rightarrow> error option \<times> 's"
where
  "WalkKeys w d walk s =
     storage_WalkKeys
       (\<lambda>key s. if key = ''store.lock'' then (None, s) else walk key s)
       (Entries w) (WalkFailure w) s"

text \<open>
  \<open>URL\<close>. Nil unless the store is S3 and proxying is off. Then the cache is locked
  (a nil cache panics here) and its list looked up directly with \<open>Cache.Get\<close>; an
  entry found is returned as it is (the lookup has moved it to the front). Otherwise the
  S3 client is asked to sign a URL valid for \<open>urlCacheTTL\<close>, with the response content
  type looked up from the key's extension; if that fails the result is nil, and if it
  succeeds the URL is stored in the cache with the expiry instant
  \<open>time.Now()\<close> + \<open>urlCacheTTL\<close> and returned. The result is the returned pointer,
  the driver afterwards and the calls made.
\<close>

definition Driver_URL ::
  "world \<Rightarrow> Driver \<Rightarrow> string \<Rightarrow> panic + (PresignedURL option \<times> Driver \<times> event list)"
where
  "Driver_URL w d key =
     (if \<not> is_S3Storage (Storage d) \<or> Proxy d then Inr (None, d, [])
      else case PresignedCache d of
        None \<Rightarrow> Inl NilPointerDereference
      | Some c \<Rightarrow>
         (case LRUMap_Get key (Cache c) of
            (Some e, es) \<Rightarrow> Inr (Some (Value e), d\<lparr>PresignedCache := Some (c\<lparr>Cache := es\<rparr>)\<rparr>, [])
          | (None, es) \<Rightarrow>
             (let params = [(''response-content-type'', [TypeByExtension w (path_Ext key)])];
                  call = CallPresignedGetObject (Bucket d) key urlCacheTTL params
              in case PresignedGetObject w (Bucket d) key urlCacheTTL params of
                   Inl err \<Rightarrow> Inr (None, d\<lparr>PresignedCache := Some (c\<lparr>Cache := es\<rparr>)\<rparr>, [call])
                 | Inr u \<Rightarrow>
                    (let psu = \<lparr>URL = u, Expiry = now w + urlCacheTTL\<rparr>
                     in Inr (Some psu,
                             d\<lparr>PresignedCache :=
                                 Some (ttl_Set key psu (stampedAt w) (c\<lparr>Cache := es\<rparr>))\<rparr>,
                             [call])))))"

text \<open>
  \<open>ProbeCSPUri\<close>. The empty string and no error unless the store is S3 and proxying is
  off. Then an empty file is written under the probe key; if that fails the error is
  returned, wrapped. From there on the removal of the file is deferred: it runs when the
  function returns, whatever it returns, and its failure is written to the log. The S3
  client is asked to sign a URL for the file, valid for one second; its error is returned
  as it is, and on success the result is the rendering of a URL that has the scheme and
  the host of the signed one and nothing else. The result is the pair the function
  returns and the calls made.
\<close>

definition cspKey :: string where
  "cspKey = ''gotosocial-csp-probe''"

definition deferred_Delete :: "world \<Rightarrow> Driver \<Rightarrow> event list" where
  "deferred_Delete w d =
     (case Delete w d cspKey of
        (Some err, evs) \<Rightarrow>
          evs @ [LogWarnf (''error deleting file from bucket at key '' @ cspKey @ '' (''
                   @ error_Error err
                   @ ''); you may want to remove this file manually from your S3 bucket'')]
      | (None, evs) \<Rightarrow> evs)"

definition ProbeCSPUri :: "world \<Rightarrow> Driver \<Rightarrow> (string \<times> error option) \<times> event list" where
  "ProbeCSPUri w d =
     (if \<not> is_S3Storage (Storage d) \<or> Proxy d then (([], None), [])
      else case Put w d cspKey [] of
        (Inl err, evs) \<Rightarrow>
          (([], Some (gtserror_Newf w
                  (''error putting file in bucket at key '' @ cspKey @ '': '' @ error_Error err) err)),
           evs)
      | (Inr n, evs) \<Rightarrow>
          (let call = CallPresignedGetObject (Bucket d) cspKey (1 * time_Second) [];
               result = (case PresignedGetObject w (Bucket d) cspKey (1 * time_Second) [] of
                           Inl err \<Rightarrow> ([], Some err)
                         | Inr u \<Rightarrow>
                            (let uStripped = \<lparr>Scheme = Scheme u, Host = Host u, Path = [], RawQuery = []\<rparr>
                             in (url_String uStripped, None)))
           in (result, evs @ [call] @ deferred_Delete w d)))"

subsection \<open>The constructors\<close>

text \<open>\<open>NewFileStorage\<close> opens the disk store at the configured base path; the driver it
  returns has the store and nothing else (no cache).\<close>

definition NewFileStorage :: "world \<Rightarrow> config \<Rightarrow> error + Driver" where
  "NewFileStorage w cfg =
     (let basePath = StorageLocalBasePath cfg
      in case OpenDisk w basePath of
           Some err \<Rightarrow> Inl (fmt_Errorf_w ''error opening disk storage: '' err)
         | None \<Rightarrow>
             Inr \<lparr>Storage = DiskStorage basePath, Proxy = False, Bucket = [],
                  PresignedCache = None\<rparr>)"

text \<open>\<open>NewS3Storage\<close> opens the S3 store and builds the cache: room for 1000 entries,
  a time to live of \<open>urlCacheTTL\<close> less the sweep period, swept every
  \<open>urlCacheExpiryFrequency\<close>.\<close>

definition NewS3Storage :: "world \<Rightarrow> config \<Rightarrow> error + Driver" where
  "NewS3Storage w cfg =
     (let endpoint = StorageS3Endpoint cfg;
          access = StorageS3AccessKey cfg;
          secret = StorageS3SecretKey cfg;
          secure = StorageS3UseSSL cfg;
          bucket = StorageS3BucketName cfg
      in case OpenS3 w endpoint bucket access secret secure of
           Some err \<Rightarrow> Inl (fmt_Errorf_w ''error opening s3 storage: '' err)
         | None \<Rightarrow>
            (let presignedCache =
                   ttl_Start urlCacheExpiryFrequency
                     (ttl_New 0 1000 (urlCacheTTL - urlCacheExpiryFrequency))
             in Inr \<lparr>Storage = S3Storage endpoint bucket,
                     Proxy = StorageS3Proxy cfg,
                     Bucket = StorageS3BucketName cfg,
                     PresignedCache = Some presignedCache\<rparr>))"

text \<open>\<open>AutoConfig\<close> chooses the constructor by the configured backend name.\<close>

definition AutoConfig :: "world \<Rightarrow> config \<Rightarrow> error + Driver" where
  "AutoConfig w cfg =
     (let backend = StorageBackend cfg
      in if backend = ''s3'' then NewS3Storage w cfg
         else if backend = ''local'' then NewFileStorage w cfg
         else Inl (Error (''invalid storage backend: '' @ backend)))"

subsection \<open>Notions used in the statements\<close>

text \<open>The query parameters and the signing request of \<open>URL\<close> for a key, and the
  request of the probe.\<close>

definition contentTypeParams :: "world \<Rightarrow> string \<Rightarrow> Values" where
  "contentTypeParams w key = [(''response-content-type'', [TypeByExtension w (path_Ext key)])]"

definition signingCall :: "world \<Rightarrow> Driver \<Rightarrow> string \<Rightarrow> event" where
  "signingCall w d key = CallPresignedGetObject (Bucket d) key urlCacheTTL (contentTypeParams w key)"

definition signed :: "world \<Rightarrow> Driver \<Rightarrow> string \<Rightarrow> error + url" where
  "signed w d key = PresignedGetObject w (Bucket d) key urlCacheTTL (contentTypeParams w key)"

definition probeSigned :: "world \<Rightarrow> Driver \<Rightarrow> error + url" where
  "probeSigned w d = PresignedGetObject w (Bucket d) cspKey (1 * time_Second) []"

text \<open>The entry the cache holds for a key: the first one in its list.\<close>

definition cached :: "ttl_Cache \<Rightarrow> string \<Rightarrow> Entry option" where
  "cached c key = find (\<lambda>e. Key e = key) (Cache c)"

text \<open>The instant at which a signature made in the world \<open>w\<close> for the validity
  \<open>urlCacheTTL\<close> stops being accepted: the validity runs from the instant of
  signing.\<close>

definition signatureLapses :: "world \<Rightarrow> Time" where
  "signatureLapses w = signedAt w + urlCacheTTL"

text \<open>
  A history of the driver: calls of \<open>URL\<close>, each in its world, and passes of the
  background sweep, each at its instant. \<open>run\<close> is the driver after the history,
  \<open>replies\<close> what the calls returned, in order.
\<close>

datatype step = Call world string | Tick Time

fun run :: "Driver \<Rightarrow> step list \<Rightarrow> panic + Driver" where
  "run d [] = Inr d"
| "run d (Tick t # steps) = run (Sweep t d) steps"
| "run d (Call w key # steps) =
     (case Driver_URL w d key of
        Inl p \<Rightarrow> Inl p
      | Inr (r, d', evs) \<Rightarrow> run d' steps)"

fun replies :: "Driver \<Rightarrow> step list \<Rightarrow> PresignedURL option list" where
  "replies d [] = []"
| "replies d (Tick t # steps) = replies (Sweep t d) steps"
| "replies d (Call w key # steps) =
     (case Driver_URL w d key of
        Inl p \<Rightarrow> []
      | Inr (r, d', evs) \<Rightarrow> r # replies d' steps)"


fun ticks :: "step list \<Rightarrow> Time list" where
  "ticks [] = []"
| "ticks (Tick t # steps) = t # ticks steps"
| "ticks (Call w key # steps) = ticks steps"



text \<open>A visitor that also records the keys it is called with, in order.\<close>

definition recording ::
  "(string \<Rightarrow> 's \<Rightarrow> error option \<times> 's) \<Rightarrow> string \<Rightarrow> 's \<times> string list \<Rightarrow> error option \<times> 's \<times> string list"
where
  "recording walk key st =
     (case st of (s, seen) \<Rightarrow> (case walk key s of (r, s') \<Rightarrow> (r, s', seen @ [key])))"

text \<open>
  The enumeration in the spec's words: the visitor is invoked on each key in turn; when
  it reports an error the enumeration stops and that error is the result. The result is
  the error if any, the visitor's state and the keys visited.
\<close>

fun visit :: "(string \<Rightarrow> 's \<Rightarrow> error option \<times> 's) \<Rightarrow> string list \<Rightarrow> 's \<Rightarrow> error option \<times> 's \<times> string list" where
  "visit walk [] s = (None, s, [])"
| "visit walk (key # keys) s =
     (case walk key s of
        (Some err, s') \<Rightarrow> (Some err, s', [key])
      | (None, s') \<Rightarrow> (case visit walk keys s' of (r, s'', seen) \<Rightarrow> (r, s'', key # seen)))"

subsection \<open>Concrete collaborators and drivers\<close>

definition example_url :: url where
  "example_url = \<lparr>Scheme = ''https'', Host = ''cdn.example.com'',
     Path = ''/bucket/gotosocial-csp-probe'', RawQuery = ''X-Sig=...''\<rparr>"

text \<open>A world in which every call succeeds: the signature is made at the instant 998,
  \<open>time.Now()\<close> reads 1000 and the cache stamps its entry at 1002.\<close>

definition example_world :: world where
  "example_world =
     \<lparr>signedAt = 998,
      now = 1000,
      stampedAt = 1002,
      WriteBytes = (\<lambda>key v. Inr (int (length v))),
      Remove = (\<lambda>key. None),
      Entries = [''a.png'', ''store.lock'', ''b.txt''],
      WalkFailure = None,
      PresignedGetObject = (\<lambda>bucket key ttl params. Inr example_url),
      TypeByExtension = (\<lambda>ext. if ext = ''.png'' then ''image/png'' else []),
      gtserror_Newf = (\<lambda>msg err. Wrapped msg err),
      OpenDisk = (\<lambda>basePath. None),
      OpenS3 = (\<lambda>endpoint bucket access secret secure. None)\<rparr>"

text \<open>Worlds in which signing fails, a removal fails, a write fails.\<close>

definition unsigned_world :: world where
  "unsigned_world =
     example_world\<lparr>PresignedGetObject := (\<lambda>bucket key ttl params. Inl (Error ''access denied''))\<rparr>"

definition undeleted_world :: world where
  "undeleted_world = example_world\<lparr>Remove := (\<lambda>key. Some (Error ''timeout''))\<rparr>"

definition unwritten_world :: world where
  "unwritten_world = example_world\<lparr>WriteBytes := (\<lambda>key v. Inl (Error ''disk full''))\<rparr>"

definition example_config :: config where
  "example_config =
     \<lparr>StorageBackend = ''s3'', StorageLocalBasePath = ''/gotosocial/storage'',
      StorageS3Endpoint = ''s3.example.com'', StorageS3AccessKey = ''access'',
      StorageS3SecretKey = ''secret'', StorageS3UseSSL = True,
      StorageS3BucketName = ''bucket'', StorageS3Proxy = False\<rparr>"

definition s3_driver :: Driver where
  "s3_driver =
     \<lparr>Storage = S3Storage ''s3.example.com'' ''bucket'', Proxy = False, Bucket = ''bucket'',
      PresignedCache =
        Some (ttl_Start urlCacheExpiryFrequency
               (ttl_New 0 1000 (urlCacheTTL - urlCacheExpiryFrequency)))\<rparr>"

definition disk_driver :: Driver where
  "disk_driver =
     \<lparr>Storage = DiskStorage ''/gotosocial/storage'', Proxy = False, Bucket = [],
      PresignedCache = None\<rparr>"

text \<open>The example world at a later instant, read by all three clocks, where the signer
  hands out another signature.\<close>

definition later_url :: url where
  "later_url = example_url\<lparr>RawQuery := ''X-Sig=later''\<rparr>"

definition later_world :: "Time \<Rightarrow> world" where
  "later_world t =
     example_world\<lparr>signedAt := t, now := t, stampedAt := t, PresignedGetObject := (\<lambda>bucket key ttl params. Inr later_url)\<rparr>"





text \<open>
  A history in which a hit on an older entry comes between its expiry and the next sweep:
  \<open>b.txt\<close> is cached at the instant 100 and \<open>a.png\<close> at 86000000000000; sweep
  number 287 finds nothing expired; \<open>b.txt\<close> is called again at 86399000000000, after
  its entry expired at 86100000000100; sweep number 288 follows; \<open>a.png\<close> is called
  again at 86401000000000.
\<close>

definition reordered_history :: "step list" where
  "reordered_history =
     [Call (later_world 100) ''b.txt'',
      Call (later_world 86000000000000) ''a.png'',
      Tick 86100000000000,
      Call (later_world 86399000000000) ''b.txt'',
      Tick 86400000000000,
      Call (later_world 86401000000000) ''a.png'']"


text \<open>
  A history in which signing takes a millisecond. The cache was started at the instant 0,
  so its sweeps run at the multiples of \<open>urlCacheExpiryFrequency\<close>. In
  \<open>slow_world\<close> the signature is made at 299999000010, \<open>time.Now()\<close> reads
  299999500010 and the cache stamps the entry at 300000000010. \<open>sweep_ticks m n\<close> are
  the sweeps number \<open>m\<close> up to, not including, number \<open>n\<close>. \<open>stale_history\<close>
  is a call for \<open>a.png\<close> in \<open>slow_world\<close>, the sweeps number 2 to 288 (the last at
  86400000000000), and a second call for \<open>a.png\<close> at 86699999500000, before sweep
  number 289 (at 86700000000000).
\<close>

definition slow_world :: world where
  "slow_world =
     example_world\<lparr>signedAt := 299999000010, now := 299999500010, stampedAt := 300000000010\<rparr>"

definition sweep_ticks :: "nat \<Rightarrow> nat \<Rightarrow> step list" where
  "sweep_ticks m n = map (\<lambda>i. Tick (int i * urlCacheExpiryFrequency)) [m..<n]"

definition stale_history :: "step list" where
  "stale_history =
     Call slow_world ''a.png'' # sweep_ticks 2 289 @ [Call (later_world 86699999500000) ''a.png'']"

text \<open>A visitor that counts its calls and fails on the key \<open>b.txt\<close>.\<close>

definition example_walk :: "string \<Rightarrow> nat \<Rightarrow> error option \<times> nat" where
  "example_walk key n = (if key = ''b.txt'' then (Some (Error ''stop''), Suc n) else (None, Suc n))"

section \<open>Properties\<close>

subsection \<open>Basic facts about the operations\<close>

lemma urlCacheTTL_fits_int64: "0 < urlCacheTTL \<and> urlCacheTTL < 2 ^ 63"
  by (simp add: urlCacheTTL_def time_Hour_def time_Minute_def time_Second_def)

lemma URL_gated:
  "\<not> is_S3Storage (Storage d) \<or> Proxy d \<Longrightarrow> Driver_URL w d key = Inr (None, d, [])"
  by (auto simp: Driver_URL_def)

lemma ProbeCSPUri_gated:
  "\<not> is_S3Storage (Storage d) \<or> Proxy d \<Longrightarrow> ProbeCSPUri w d = (([], None), [])"
  by (auto simp: ProbeCSPUri_def)

text \<open>The lookup, when the key has an entry and when it has none.\<close>

lemma LRUMap_Get_hit:
  "find (\<lambda>e. Key e = key) es = Some e \<Longrightarrow>
     LRUMap_Get key es = (Some e, e # filter (\<lambda>e'. Key e' \<noteq> key) es)"
  by (simp add: LRUMap_Get_def)

lemma LRUMap_Get_miss:
  "find (\<lambda>e. Key e = key) es = None \<Longrightarrow> LRUMap_Get key es = (None, es)"
  by (simp add: LRUMap_Get_def)

lemma same_cache: "PresignedCache d = Some c \<Longrightarrow> d\<lparr>PresignedCache := Some (c\<lparr>Cache := Cache c\<rparr>)\<rparr> = d"
  by simp

lemma URL_hit:
  "is_S3Storage (Storage d) \<Longrightarrow> \<not> Proxy d \<Longrightarrow> PresignedCache d = Some c \<Longrightarrow> cached c key = Some e
   \<Longrightarrow> Driver_URL w d key =
         Inr (Some (Value e),
              d\<lparr>PresignedCache := Some (c\<lparr>Cache := e # filter (\<lambda>e'. Key e' \<noteq> key) (Cache c)\<rparr>)\<rparr>,
              [])"
  by (simp add: Driver_URL_def cached_def LRUMap_Get_hit)

lemma URL_miss_signed:
  "is_S3Storage (Storage d) \<Longrightarrow> \<not> Proxy d \<Longrightarrow> PresignedCache d = Some c \<Longrightarrow> cached c key = None
   \<Longrightarrow> signed w d key = Inr u
   \<Longrightarrow> Driver_URL w d key =
         Inr (Some \<lparr>URL = u, Expiry = now w + urlCacheTTL\<rparr>,
              d\<lparr>PresignedCache :=
                  Some (ttl_Set key \<lparr>URL = u, Expiry = now w + urlCacheTTL\<rparr> (stampedAt w) c)\<rparr>,
              [signingCall w d key])"
  by (simp add: Driver_URL_def cached_def LRUMap_Get_miss signed_def signingCall_def
        contentTypeParams_def Let_def)

lemma URL_miss_unsigned:
  "is_S3Storage (Storage d) \<Longrightarrow> \<not> Proxy d \<Longrightarrow> PresignedCache d = Some c \<Longrightarrow> cached c key = None
   \<Longrightarrow> signed w d key = Inl err
   \<Longrightarrow> Driver_URL w d key = Inr (None, d, [signingCall w d key])"
  by (simp add: Driver_URL_def cached_def LRUMap_Get_miss signed_def signingCall_def
        contentTypeParams_def)

lemma URL_nil_cache_panics:
  "is_S3Storage (Storage d) \<Longrightarrow> \<not> Proxy d \<Longrightarrow> PresignedCache d = None
   \<Longrightarrow> Driver_URL w d key = Inl NilPointerDereference"
  by (simp add: Driver_URL_def)

lemma URL_Some_only_S3:
  "Driver_URL w d key = Inr (Some psu, d', evs) \<Longrightarrow> is_S3Storage (Storage d) \<and> \<not> Proxy d"
  by (auto simp: Driver_URL_def split: if_splits)

text \<open>
  Claim C3. For every driver whose store is not the S3 implementation, or whose
  \<open>Proxy\<close> flag is set, and for every key, \<open>URL\<close> returns nil (leaving the driver
  as it is and calling nothing) and \<open>ProbeCSPUri\<close> returns the empty string and no
  error; and whenever \<open>URL\<close> returns a \<open>PresignedURL\<close>, the store is S3 and
  \<open>Proxy\<close> is off.
\<close>

theorem capability_check:
  "(\<not> is_S3Storage (Storage d) \<or> Proxy d \<longrightarrow>
      Driver_URL w d key = Inr (None, d, []) \<and> ProbeCSPUri w d = (([], None), []))
   \<and> (Driver_URL w d key = Inr (Some psu, d', evs) \<longrightarrow> is_S3Storage (Storage d) \<and> \<not> Proxy d)"
  using URL_gated ProbeCSPUri_gated URL_Some_only_S3 by blast

text \<open>The example world signs every request with the example URL; the example S3 driver
  starts with an empty cache, so its first \<open>URL\<close> call is a miss.\<close>

lemma example_signed: "signed example_world s3_driver key = Inr example_url"
  by (simp add: signed_def example_world_def)

lemma s3_driver_fields:
  "is_S3Storage (Storage s3_driver)" "\<not> Proxy s3_driver" "Bucket s3_driver = ''bucket''"
  "PresignedCache s3_driver = Some (ttl_Start urlCacheExpiryFrequency
               (ttl_New 0 1000 (urlCacheTTL - urlCacheExpiryFrequency)))"
  by (simp_all add: s3_driver_def)

lemma new_cache_empty: "cached (ttl_Start f (ttl_New l cap t)) key = None"
  by (simp add: cached_def ttl_Start_def ttl_New_def)

lemma example_URL:
  "Driver_URL example_world s3_driver ''a.png'' =
     Inr (Some \<lparr>URL = example_url, Expiry = 1000 + urlCacheTTL\<rparr>,
          s3_driver\<lparr>PresignedCache := Some (ttl_Set ''a.png'' \<lparr>URL = example_url, Expiry = 1000 + urlCacheTTL\<rparr> 1002
             (ttl_Start urlCacheExpiryFrequency (ttl_New 0 1000 (urlCacheTTL - urlCacheExpiryFrequency))))\<rparr>,
          [signingCall example_world s3_driver ''a.png''])"
  using URL_miss_signed [OF s3_driver_fields(1,2,4) new_cache_empty example_signed, of "''a.png''"]
  by (simp add: example_world_def)

text \<open>A disk driver and an S3 driver with proxying on, which get nothing, and the S3
  driver with proxying off, where a URL is produced.\<close>

theorem capability_check_witness:
  "\<not> is_S3Storage (Storage disk_driver)
   \<and> Driver_URL example_world disk_driver ''a.png'' = Inr (None, disk_driver, [])
   \<and> ProbeCSPUri example_world disk_driver = (([], None), [])
   \<and> Proxy (s3_driver\<lparr>Proxy := True\<rparr>)
   \<and> Driver_URL example_world (s3_driver\<lparr>Proxy := True\<rparr>) ''a.png'' = Inr (None, s3_driver\<lparr>Proxy := True\<rparr>, [])
   \<and> ProbeCSPUri example_world (s3_driver\<lparr>Proxy := True\<rparr>) = (([], None), [])
   \<and> (\<exists>psu d' evs. Driver_URL example_world s3_driver ''a.png'' = Inr (Some psu, d', evs))
   \<and> is_S3Storage (Storage s3_driver) \<and> \<not> Proxy s3_driver"
proof -
  have disk: "\<not> is_S3Storage (Storage disk_driver)" by (simp add: disk_driver_def)
  have prox: "Proxy (s3_driver\<lparr>Proxy := True\<rparr>)" by simp
  have g1: "Driver_URL example_world disk_driver ''a.png'' = Inr (None, disk_driver, [])
            \<and> ProbeCSPUri example_world disk_driver = (([], None), [])"
    using capability_check [of disk_driver example_world "''a.png''"] disk by blast
  have g2: "Driver_URL example_world (s3_driver\<lparr>Proxy := True\<rparr>) ''a.png'' = Inr (None, s3_driver\<lparr>Proxy := True\<rparr>, [])
            \<and> ProbeCSPUri example_world (s3_driver\<lparr>Proxy := True\<rparr>) = (([], None), [])"
    using capability_check [of "s3_driver\<lparr>Proxy := True\<rparr>" example_world "''a.png''"] prox by blast
  have g3: "is_S3Storage (Storage s3_driver) \<and> \<not> Proxy s3_driver"
    using capability_check [of s3_driver example_world "''a.png''"] example_URL by blast
  have ex: "\<exists>psu d' evs. Driver_URL example_world s3_driver ''a.png'' = Inr (Some psu, d', evs)"
    using example_URL by blast
  from disk prox g1 g2 g3 ex show ?thesis by blast
qed

subsection \<open>The constructors and the nil cache\<close>

lemma NewFileStorage_Inr:
  "NewFileStorage w cfg = Inr d \<Longrightarrow>
     d = \<lparr>Storage = DiskStorage (StorageLocalBasePath cfg), Proxy = False, Bucket = [],
          PresignedCache = None\<rparr>"
  by (auto simp: NewFileStorage_def Let_def split: option.splits)

lemma NewS3Storage_Inr:
  "NewS3Storage w cfg = Inr d \<Longrightarrow>
     d = \<lparr>Storage = S3Storage (StorageS3Endpoint cfg) (StorageS3BucketName cfg),
          Proxy = StorageS3Proxy cfg, Bucket = StorageS3BucketName cfg,
          PresignedCache = Some (ttl_Start urlCacheExpiryFrequency
                                   (ttl_New 0 1000 (urlCacheTTL - urlCacheExpiryFrequency)))\<rparr>"
  by (auto simp: NewS3Storage_def Let_def split: option.splits)

text \<open>
  Claim C10. A driver built by \<open>NewFileStorage\<close> has a nil cache and a store that is
  not S3. For every driver whose store is not S3 and whose cache is nil, \<open>URL\<close> and
  \<open>ProbeCSPUri\<close> return normally (nil, and the empty string with no error) in every
  world and for every key. \<open>URL\<close> panics on the nil cache only when the store is S3
  and proxying is off, which is where it reaches the cache.
\<close>

theorem nil_cache_never_dereferenced:
  "(NewFileStorage w cfg = Inr d \<longrightarrow> PresignedCache d = None \<and> \<not> is_S3Storage (Storage d))
   \<and> (\<not> is_S3Storage (Storage d) \<and> PresignedCache d = None \<longrightarrow>
        Driver_URL w' d key = Inr (None, d, []) \<and> ProbeCSPUri w' d = (([], None), []))
   \<and> (Driver_URL w' d key = Inl p \<longrightarrow> is_S3Storage (Storage d) \<and> \<not> Proxy d \<and> PresignedCache d = None)"
proof (intro conjI impI)
  assume "NewFileStorage w cfg = Inr d"
  from NewFileStorage_Inr [OF this]
  show "PresignedCache d = None" and "\<not> is_S3Storage (Storage d)" by simp_all
next
  assume "\<not> is_S3Storage (Storage d) \<and> PresignedCache d = None"
  then show "Driver_URL w' d key = Inr (None, d, [])" and "ProbeCSPUri w' d = (([], None), [])"
    by (simp_all add: URL_gated ProbeCSPUri_gated)
next
  assume "Driver_URL w' d key = Inl p"
  then show "is_S3Storage (Storage d)" and "\<not> Proxy d" and "PresignedCache d = None"
    by (auto simp: Driver_URL_def Let_def split: if_splits option.splits sum.splits prod.splits)
qed

text \<open>The disk driver is what \<open>NewFileStorage\<close> builds in the example world; an S3
  driver stripped of its cache does panic, so the panic is a branch of the model.\<close>

lemma example_NewFileStorage: "NewFileStorage example_world example_config = Inr disk_driver"
  by (simp add: NewFileStorage_def example_world_def example_config_def disk_driver_def)

theorem nil_cache_never_dereferenced_witness:
  "NewFileStorage example_world example_config = Inr disk_driver
   \<and> PresignedCache disk_driver = None
   \<and> \<not> is_S3Storage (Storage disk_driver)
   \<and> Driver_URL unsigned_world disk_driver ''a.png'' = Inr (None, disk_driver, [])
   \<and> ProbeCSPUri unsigned_world disk_driver = (([], None), [])
   \<and> Driver_URL example_world (s3_driver\<lparr>PresignedCache := None\<rparr>) ''a.png'' = Inl NilPointerDereference
   \<and> PresignedCache (s3_driver\<lparr>PresignedCache := None\<rparr>) = None"
proof -
  note t = nil_cache_never_dereferenced [of example_world example_config disk_driver unsigned_world "''a.png''"]
  have a: "PresignedCache disk_driver = None \<and> \<not> is_S3Storage (Storage disk_driver)"
    using t example_NewFileStorage by blast
  have b: "Driver_URL unsigned_world disk_driver ''a.png'' = Inr (None, disk_driver, [])
           \<and> ProbeCSPUri unsigned_world disk_driver = (([], None), [])"
    using t a by blast
  have c: "Driver_URL example_world (s3_driver\<lparr>PresignedCache := None\<rparr>) ''a.png'' = Inl NilPointerDereference"
    by (rule URL_nil_cache_panics) (simp_all add: s3_driver_def)
  have d: "PresignedCache (s3_driver\<lparr>PresignedCache := None\<rparr>) = None"
    using nil_cache_never_dereferenced [of example_world example_config
            "s3_driver\<lparr>PresignedCache := None\<rparr>" example_world "''a.png''" NilPointerDereference] c
    by blast
  from example_NewFileStorage a b c d show ?thesis by blast
qed

text \<open>
  Claim C9. Given a backend name that is neither \<open>s3\<close> nor \<open>local\<close>, the factory
  returns, in every world, an error whose message names the backend, and no driver.
\<close>

theorem AutoConfig_invalid_backend:
  "StorageBackend cfg \<noteq> ''s3'' \<Longrightarrow> StorageBackend cfg \<noteq> ''local'' \<Longrightarrow>
     AutoConfig w cfg = Inl (Error (''invalid storage backend: '' @ StorageBackend cfg))"
  by (simp add: AutoConfig_def)

text \<open>The backend name \<open>S3\<close> in capitals is refused.\<close>

theorem AutoConfig_invalid_backend_witness:
  "StorageBackend (example_config\<lparr>StorageBackend := ''S3''\<rparr>) \<noteq> ''s3''
   \<and> StorageBackend (example_config\<lparr>StorageBackend := ''S3''\<rparr>) \<noteq> ''local''
   \<and> AutoConfig example_world (example_config\<lparr>StorageBackend := ''S3''\<rparr>)
       = Inl (Error ''invalid storage backend: S3'')"
proof -
  have a: "StorageBackend (example_config\<lparr>StorageBackend := ''S3''\<rparr>) \<noteq> ''s3''" by simp
  have b: "StorageBackend (example_config\<lparr>StorageBackend := ''S3''\<rparr>) \<noteq> ''local''" by simp
  from AutoConfig_invalid_backend [OF a b, of example_world] have
    "AutoConfig example_world (example_config\<lparr>StorageBackend := ''S3''\<rparr>)
       = Inl (Error ''invalid storage backend: S3'')" by simp
  with a b show ?thesis by blast
qed

subsection \<open>The presigned-URL cache\<close>

text \<open>
  Claim C2. When the store is S3, proxying is off and the key is not cached, so that
  \<open>URL\<close> asks the S3 client to sign, and the client answers with an error, \<open>URL\<close>
  returns nil, returns normally, and leaves the driver as it was: the cache still has no
  entry for the key.
\<close>

theorem signing_failure_absorbed:
  assumes "is_S3Storage (Storage d)" and "\<not> Proxy d"
    and "PresignedCache d = Some c" and "cached c key = None"
    and "signed w d key = Inl err"
  shows "Driver_URL w d key = Inr (None, d, [signingCall w d key])
         \<and> (\<exists>c'. PresignedCache d = Some c' \<and> cached c' key = None)"
  using assms by (simp add: URL_miss_unsigned)

text \<open>In the world where signing is refused, the example S3 driver returns nil after the
  one signing request, and is unchanged.\<close>

lemma unsigned_signed: "signed unsigned_world s3_driver key = Inl (Error ''access denied'')"
  by (simp add: signed_def unsigned_world_def example_world_def)

theorem signing_failure_absorbed_witness:
  "signed unsigned_world s3_driver ''a.png'' = Inl (Error ''access denied'')
   \<and> Driver_URL unsigned_world s3_driver ''a.png'' =
        Inr (None, s3_driver,
             [CallPresignedGetObject ''bucket'' ''a.png'' 86400000000000
                [(''response-content-type'', [''image/png''])]])"
proof -
  have "Driver_URL unsigned_world s3_driver ''a.png'' =
          Inr (None, s3_driver, [signingCall unsigned_world s3_driver ''a.png''])"
    using signing_failure_absorbed [OF s3_driver_fields(1,2,4) new_cache_empty unsigned_signed]
    by blast
  moreover have "signingCall unsigned_world s3_driver ''a.png'' =
      CallPresignedGetObject ''bucket'' ''a.png'' 86400000000000
                [(''response-content-type'', [''image/png''])]"
    by (simp add: signingCall_def contentTypeParams_def unsigned_world_def example_world_def
        s3_driver_def path_Ext_def urlCacheTTL_def time_Hour_def time_Minute_def time_Second_def)
  ultimately show ?thesis using unsigned_signed by simp
qed

text \<open>The cache operations at one key.\<close>

text \<open>The cache operations.\<close>

lemma ttl_Set_miss:
  "cached c key = None \<Longrightarrow>
     ttl_Set key v t c =
       c\<lparr>Cache := \<lparr>Key = key, Value = v, EntryExpiry = t + TTL c\<rparr>
                     # (if Capacity c \<le> length (Cache c) then butlast (Cache c) else Cache c)\<rparr>"
  by (simp add: ttl_Set_def cached_def LRUMap_Get_miss)

lemma ttl_Set_lookup:
  "cached (ttl_Set key v t c) key = Some \<lparr>Key = key, Value = v, EntryExpiry = t + TTL c\<rparr>"
proof (cases "find (\<lambda>e. Key e = key) (Cache c)")
  case None
  then show ?thesis by (simp add: ttl_Set_def cached_def LRUMap_Get_miss)
next
  case (Some item)
  then have "Key item = key" by (auto simp: find_Some_iff)
  with Some show ?thesis by (simp add: ttl_Set_def cached_def LRUMap_Get_hit)
qed

lemma ttl_Set_fields: "TTL (ttl_Set key v t c) = TTL c" "Capacity (ttl_Set key v t c) = Capacity c"
  by (simp_all add: ttl_Set_def LRUMap_Get_def split: option.splits)






text \<open>The validity asked of the signer is 24 hours.\<close>

lemma urlCacheTTL_24h: "urlCacheTTL = 24 * time_Hour"
  by (simp add: urlCacheTTL_def)

text \<open>
  Claim C6. On a cache miss for a key (S3 store, proxying off) \<open>URL\<close> makes exactly one
  call: a signing request for the driver's bucket and the key, valid for 24 hours, with the
  query parameter \<open>response-content-type\<close> set to the MIME type of the key's
  extension. When the signer answers with a URL, \<open>URL\<close> returns that URL with the
  expiry instant \<open>time.Now()\<close> + 24 hours, and the driver it leaves has this value in
  the cache under the key, in an entry expiring at the cache's clock reading plus the
  cache's time to live.
\<close>

theorem URL_miss_signs_and_stores:
  assumes s3: "is_S3Storage (Storage d)" and np: "\<not> Proxy d"
    and cache: "PresignedCache d = Some c" and miss: "cached c key = None"
  shows "\<exists>r d'. Driver_URL w d key =
            Inr (r, d', [CallPresignedGetObject (Bucket d) key (24 * time_Hour)
                           [(''response-content-type'', [TypeByExtension w (path_Ext key)])]])
          \<and> (\<forall>u. PresignedGetObject w (Bucket d) key (24 * time_Hour)
                     [(''response-content-type'', [TypeByExtension w (path_Ext key)])] = Inr u
                \<longrightarrow> r = Some \<lparr>URL = u, Expiry = now w + 24 * time_Hour\<rparr>
                    \<and> (\<exists>c'. PresignedCache d' = Some c'
                          \<and> cached c' key = Some \<lparr>Key = key,
                                 Value = \<lparr>URL = u, Expiry = now w + 24 * time_Hour\<rparr>,
                                 EntryExpiry = stampedAt w + TTL c\<rparr>))"
proof (cases "signed w d key")
  case (Inl err)
  from URL_miss_unsigned [OF s3 np cache miss Inl] Inl show ?thesis
    by (simp add: signingCall_def contentTypeParams_def signed_def urlCacheTTL_24h)
next
  case (Inr u)
  from URL_miss_signed [OF s3 np cache miss Inr] Inr show ?thesis
    by (simp add: signingCall_def contentTypeParams_def signed_def urlCacheTTL_24h ttl_Set_lookup)
qed

text \<open>The first \<open>URL\<close> call of the example S3 driver for \<open>media/a.png\<close>, in
  the example world.\<close>

theorem URL_miss_signs_and_stores_witness:
  "is_S3Storage (Storage s3_driver) \<and> \<not> Proxy s3_driver
   \<and> (\<exists>d'. Driver_URL example_world s3_driver ''media/a.png'' =
        Inr (Some \<lparr>URL = example_url, Expiry = 86400000001000\<rparr>, d',
             [CallPresignedGetObject ''bucket'' ''media/a.png'' 86400000000000
                [(''response-content-type'', [''image/png''])]])
        \<and> (\<exists>c'. PresignedCache d' = Some c'
              \<and> cached c' ''media/a.png'' =
                   Some \<lparr>Key = ''media/a.png'',
                         Value = \<lparr>URL = example_url, Expiry = 86400000001000\<rparr>,
                         EntryExpiry = 86100000001002\<rparr>))"
proof -
  note t = URL_miss_signs_and_stores [where key = "''media/a.png''" and w = example_world,
              OF s3_driver_fields(1,2,4) new_cache_empty]
  have sg: "PresignedGetObject example_world (Bucket s3_driver) ''media/a.png'' (24 * time_Hour)
              [(''response-content-type'',
                 [TypeByExtension example_world (path_Ext ''media/a.png'')])] = Inr example_url"
    by (simp add: example_world_def)
  have ev: "TypeByExtension example_world (path_Ext ''media/a.png'') = ''image/png''"
    by (simp add: example_world_def path_Ext_def)
  have cs: "24 * time_Hour = 86400000000000" "now example_world = 1000"
    "stampedAt example_world = 1002"
    "TTL (ttl_Start urlCacheExpiryFrequency (ttl_New 0 1000 (urlCacheTTL - urlCacheExpiryFrequency)))
       = 86100000000000"
    by (simp_all add: time_Hour_def time_Minute_def time_Second_def example_world_def
          ttl_Start_def ttl_New_def urlCacheTTL_def urlCacheExpiryFrequency_def)
  from t sg show ?thesis
    by (simp only: ev cs s3_driver_fields(3)) (use s3_driver_fields(1,2) in auto)
qed

subsection \<open>Histories that keep an entry\<close>


lemma find_in: "find P xs = Some x \<Longrightarrow> x \<in> set xs \<and> P x"
  by (induction xs) (auto split: if_splits)

text \<open>A hit returns the value of the entry and leaves the entry as it is, value and
  expiry instant, at the front of the list.\<close>

lemma URL_hit_keeps_entry:
  assumes "is_S3Storage (Storage d)" and "\<not> Proxy d" and "PresignedCache d = Some c"
    and "cached c key = Some e"
  shows "\<exists>d' c'. Driver_URL w d key = Inr (Some (Value e), d', [])
           \<and> PresignedCache d' = Some c' \<and> cached c' key = Some e \<and> hd (Cache c') = e"
proof -
  have "Key e = key" using find_in [of "\<lambda>e. Key e = key" "Cache c" e] assms(4)
    by (simp add: cached_def)
  with URL_hit [OF assms, of w] show ?thesis by (simp add: cached_def)
qed








text \<open>Histories in two parts.\<close>

lemma run_append: "run d xs = Inr d' \<Longrightarrow> run d (xs @ ys) = run d' ys"
proof (induction xs arbitrary: d)
  case Nil
  then show ?case by simp
next
  case (Cons step xs)
  then show ?case by (cases step) (auto split: sum.splits prod.splits)
qed



text \<open>The constants and the example worlds, evaluated.\<close>

lemma example_constants:
  "now example_world = 1000" "stampedAt example_world = 1002" "signedAt example_world = 998"
  "now (later_world t) = t" "stampedAt (later_world t) = t" "signedAt (later_world t) = t"
  "urlCacheTTL = 86400000000000" "urlCacheExpiryFrequency = 300000000000"
  by (simp_all add: example_world_def later_world_def urlCacheTTL_def urlCacheExpiryFrequency_def
        time_Hour_def time_Minute_def time_Second_def)

lemma new_cache_fields:
  "TTL (ttl_Start f (ttl_New l cap t)) = t" "Capacity (ttl_Start f (ttl_New l cap t)) = cap"
  "Cache (ttl_Start f (ttl_New l cap t)) = []" "SweepEvery (ttl_Start f (ttl_New l cap t)) = Some f"
  by (simp_all add: ttl_Start_def ttl_New_def)


text \<open>A miss that is signed, on a cache with room and on a full cache.\<close>

lemma URL_miss_signed_room:
  assumes "is_S3Storage (Storage d)" and "\<not> Proxy d" and "PresignedCache d = Some c"
    and "cached c key = None" and "signed w d key = Inr u" and "length (Cache c) < Capacity c"
  shows "Driver_URL w d key =
           Inr (Some \<lparr>URL = u, Expiry = now w + urlCacheTTL\<rparr>,
                d\<lparr>PresignedCache := Some (c\<lparr>Cache :=
                     \<lparr>Key = key, Value = \<lparr>URL = u, Expiry = now w + urlCacheTTL\<rparr>,
                      EntryExpiry = stampedAt w + TTL c\<rparr> # Cache c\<rparr>)\<rparr>,
                [signingCall w d key])"
  using assms URL_miss_signed [OF assms(1-5)] by (simp add: ttl_Set_miss)







text \<open>
  The conditions on the sweeps in the amended statement are needed as well. A sweep drops
  the first expired entry it meets and everything behind it, and a hit moves the entry it
  finds to the front, expired or not. In the history below the hit on \<open>b.txt\<close> puts
  its expired entry in front of the entry of \<open>a.png\<close>, the next sweep drops both, and
  the second call for \<open>a.png\<close>, 401 seconds after the first, is signed anew.
\<close>

lemma hit_on_expired_entry_evicts_younger:
  "map (map_option Expiry) (replies s3_driver reordered_history) =
     [Some 86400000000100, Some 172400000000000, Some 86400000000100, Some 172801000000000]"
  by (simp add: reordered_history_def Driver_URL_def s3_driver_def LRUMap_Get_def ttl_Set_def
        Sweep_def ttl_Sweep_def ttl_Start_def ttl_New_def later_world_def example_world_def
        example_constants Let_def)


subsection \<open>The time to live of the cache and the validity of the signature\<close>

text \<open>
  The numbers of the reference configuration: the cache \<open>NewS3Storage\<close> builds has a
  time to live of 24 hours less 5 minutes, strictly below the 24 hours of validity asked of
  the signer, and is swept every 5 minutes, strictly below that time to live.
\<close>

lemma new_cache_numbers:
  assumes "NewS3Storage w cfg = Inr d"
  shows "\<exists>c. PresignedCache d = Some c
          \<and> urlCacheTTL = 24 * 60 * 60 * 1000000000
          \<and> urlCacheExpiryFrequency = 5 * 60 * 1000000000
          \<and> TTL c = urlCacheTTL - urlCacheExpiryFrequency
          \<and> SweepEvery c = Some urlCacheExpiryFrequency
          \<and> Capacity c = 1000
          \<and> TTL c < urlCacheTTL
          \<and> urlCacheExpiryFrequency < TTL c"
  using NewS3Storage_Inr [OF assms]
  by (simp add: new_cache_fields example_constants)

text \<open>Whatever the state of the cache, the entry a signed miss leaves expires in the cache
  at the cache's clock reading plus the time to live, and the value in it at
  \<open>time.Now()\<close> plus the validity; with the time to live of the reference configuration
  and the two clock readings at most 5 minutes apart, the first is before the second.\<close>

lemma stored_entry_expires_first:
  assumes "is_S3Storage (Storage d)" and "\<not> Proxy d" and "PresignedCache d = Some c"
    and "cached c key = None" and "signed w d key = Inr u"
    and "TTL c = urlCacheTTL - urlCacheExpiryFrequency"
    and "stampedAt w < now w + urlCacheExpiryFrequency"
  shows "\<exists>psu d' c' e. Driver_URL w d key = Inr (Some psu, d', [signingCall w d key])
           \<and> PresignedCache d' = Some c' \<and> cached c' key = Some e \<and> Value e = psu
           \<and> EntryExpiry e = stampedAt w + TTL c \<and> Expiry psu = now w + urlCacheTTL
           \<and> EntryExpiry e < Expiry psu"
  using URL_miss_signed [OF assms(1-5)] assms(6,7)
  by (simp add: ttl_Set_lookup)

text \<open>Sweeps that come before every entry has expired leave the driver as it is.\<close>

lemma run_quiet_ticks:
  "PresignedCache d = Some c \<Longrightarrow> \<forall>t\<in>set ts. \<forall>e\<in>set (Cache c). t \<le> EntryExpiry e
   \<Longrightarrow> run d (map Tick ts @ steps) = run d steps \<and> replies d (map Tick ts @ steps) = replies d steps"
proof (induction ts)
  case Nil
  then show ?case by simp
next
  case (Cons t ts)
  have "takeWhile (\<lambda>e. \<not> EntryExpiry e < t) (Cache c) = Cache c"
    using Cons.prems(2) by (auto simp: takeWhile_eq_all_conv)
  then have "Sweep t d = d"
    using Cons.prems(1) by (simp add: Sweep_def ttl_Sweep_def)
  with Cons show ?case by simp
qed

lemma example_NewS3Storage: "NewS3Storage example_world example_config = Inr s3_driver"
  by (simp add: NewS3Storage_def example_world_def example_config_def s3_driver_def)

lemma slow_world_facts:
  "signedAt slow_world = 299999000010" "now slow_world = 299999500010"
  "stampedAt slow_world = 300000000010" "signed slow_world d key = Inr example_url"
  by (simp_all add: slow_world_def example_world_def signed_def)

text \<open>
  Claim C8. The numbers are as the claim says (\<open>new_cache_numbers\<close>), but an entry is
  not always evicted before its signature lapses. On the driver \<open>NewS3Storage\<close>
  builds, with signing taking a millisecond: the signature made at 299999000010 lapses at
  86699999000010; the entry, stamped at 300000000010, expires in the cache at
  86400000000010, ten nanoseconds after sweep number 288, which therefore keeps it; the
  next sweep is due at 86700000000000. A call at 86699999500000, after the signature has
  lapsed and before that sweep, is a hit and returns the lapsed URL.
\<close>

theorem stale_URL_served:
  "NewS3Storage example_world example_config = Inr s3_driver
   \<and> replies s3_driver stale_history =
        [Some \<lparr>URL = example_url, Expiry = 86699999500010\<rparr>,
         Some \<lparr>URL = example_url, Expiry = 86699999500010\<rparr>]
   \<and> signatureLapses slow_world = 86699999000010
   \<and> now (later_world 86699999500000) = 86699999500000
   \<and> signatureLapses slow_world < now (later_world 86699999500000)
   \<and> map_option SweepEvery (PresignedCache s3_driver) = Some (Some urlCacheExpiryFrequency)
   \<and> ticks stale_history = map (\<lambda>i. int i * urlCacheExpiryFrequency) [2..<289]
   \<and> 288 * urlCacheExpiryFrequency < signatureLapses slow_world
   \<and> now (later_world 86699999500000) < 289 * urlCacheExpiryFrequency"
proof -
  define c0 where "c0 = ttl_Start urlCacheExpiryFrequency
                          (ttl_New 0 1000 (urlCacheTTL - urlCacheExpiryFrequency))"
  define p where "p = \<lparr>URL = example_url, Expiry = now slow_world + urlCacheTTL\<rparr>"
  define e where "e = \<lparr>Key = ''a.png'', Value = p, EntryExpiry = stampedAt slow_world + TTL c0\<rparr>"
  define c1 where "c1 = c0\<lparr>Cache := [e]\<rparr>"
  define d1 where "d1 = s3_driver\<lparr>PresignedCache := Some c1\<rparr>"
  define idx where "idx = [2..<289::nat]"
  define ts where "ts = map (\<lambda>i. int i * urlCacheExpiryFrequency) idx"
  have idx_set: "i < 289" if "i \<in> set idx" for i
    using that unfolding idx_def by (simp only: set_upt atLeastLessThan_iff)
  have c0: "PresignedCache s3_driver = Some c0" "Cache c0 = []" "Capacity c0 = 1000"
    "TTL c0 = 86100000000000"
    by (simp_all add: c0_def s3_driver_fields new_cache_fields example_constants)
  have d1: "is_S3Storage (Storage d1)" "\<not> Proxy d1" "PresignedCache d1 = Some c1"
    by (simp_all add: d1_def s3_driver_fields)
  have first: "Driver_URL slow_world s3_driver ''a.png'' =
                 Inr (Some p, d1, [signingCall slow_world s3_driver ''a.png''])"
    using URL_miss_signed_room [OF s3_driver_fields(1,2) c0(1) _ slow_world_facts(4), of "''a.png''"]
    by (simp add: c0 cached_def p_def e_def c1_def d1_def)
  have quiet: "\<forall>t\<in>set ts. \<forall>x\<in>set (Cache c1). t \<le> EntryExpiry x"
  proof (intro ballI)
    fix t x assume "t \<in> set ts" and "x \<in> set (Cache c1)"
    then obtain i where i: "i \<in> set idx" "t = int i * urlCacheExpiryFrequency" and x: "x = e"
      by (auto simp: ts_def c1_def)
    from idx_set [OF i(1)] have "int i \<le> 288" by simp
    then have "int i * urlCacheExpiryFrequency \<le> 288 * urlCacheExpiryFrequency"
      by (intro mult_right_mono) (simp_all add: example_constants)
    then show "t \<le> EntryExpiry x"
      by (simp add: i(2) x e_def c0 slow_world_facts example_constants)
  qed
  have hit: "cached c1 ''a.png'' = Some e" by (simp add: cached_def c1_def e_def)
  have second: "\<exists>d2. Driver_URL (later_world 86699999500000) d1 ''a.png'' = Inr (Some p, d2, [])"
    using URL_hit [OF d1 hit] by (simp add: e_def)
  have sweeps: "sweep_ticks 2 289 = map Tick ts"
    unfolding sweep_ticks_def ts_def idx_def by (simp only: map_map comp_def)
  have "replies d1 (map Tick ts @ [Call (later_world 86699999500000) ''a.png''])
          = replies d1 [Call (later_world 86699999500000) ''a.png'']"
    using run_quiet_ticks [OF d1(3) quiet] by blast
  also have "\<dots> = [Some p]" using second by auto
  finally have rest: "replies d1 (map Tick ts @ [Call (later_world 86699999500000) ''a.png'']) = [Some p]" .
  have a: "replies s3_driver stale_history = [Some p, Some p]"
    unfolding stale_history_def sweeps using first rest by simp
  have tk: "ticks (Call w k # map Tick ts @ [Call w' k']) = ts" for w k w' k'
    by (induction ts) simp_all
  have b: "ticks stale_history = ts"
    unfolding stale_history_def sweeps by (rule tk)
  have every: "map_option SweepEvery (PresignedCache s3_driver) = Some (Some urlCacheExpiryFrequency)"
    by (simp add: s3_driver_fields new_cache_fields)
  have b': "ticks stale_history = map (\<lambda>i. int i * urlCacheExpiryFrequency) [2..<289]"
    unfolding b ts_def idx_def by (rule refl)
  have nums: "signatureLapses slow_world = 86699999000010"
    "now (later_world 86699999500000) = 86699999500000"
    "signatureLapses slow_world < now (later_world 86699999500000)"
    "288 * urlCacheExpiryFrequency < signatureLapses slow_world"
    "now (later_world 86699999500000) < 289 * urlCacheExpiryFrequency"
    "now slow_world + urlCacheTTL = 86699999500010"
    by (simp_all add: signatureLapses_def slow_world_facts example_constants)
  have a': "replies s3_driver stale_history =
        [Some \<lparr>URL = example_url, Expiry = 86699999500010\<rparr>,
         Some \<lparr>URL = example_url, Expiry = 86699999500010\<rparr>]"
    unfolding a p_def nums(6) by (rule refl)
  from example_NewS3Storage a' nums(1-3) every b' nums(4,5) show ?thesis
    by (intro conjI)
qed

text \<open>The second reply of that history is the URL whose signature lapsed before the call.\<close>

theorem stale_URL_served_witness:
  "last (replies s3_driver stale_history) = Some \<lparr>URL = example_url, Expiry = 86699999500010\<rparr>
   \<and> signatureLapses slow_world < now (later_world 86699999500000)"
proof -
  from stale_URL_served have r: "replies s3_driver stale_history =
        [Some \<lparr>URL = example_url, Expiry = 86699999500010\<rparr>,
         Some \<lparr>URL = example_url, Expiry = 86699999500010\<rparr>]"
    by (rule conjunct1 [OF conjunct2])
  from stale_URL_served have lt: "signatureLapses slow_world < now (later_world 86699999500000)"
    by (rule conjunct1 [OF conjunct2 [OF conjunct2 [OF conjunct2 [OF conjunct2]]]])
  from lt show ?thesis by (simp add: r)
qed

subsection \<open>The CSP probe\<close>

text \<open>Rendering a URL that has a scheme and a host only, and the three ways through
  \<open>ProbeCSPUri\<close> once the store is S3 and proxying is off.\<close>

lemma escape_unchanged: "\<forall>c\<in>set s. \<not> shouldEscape c mode \<Longrightarrow> escape s mode = s"
  by (induction s) simp_all

lemma url_String_stripped:
  "url_String \<lparr>Scheme = sch, Host = h, Path = [], RawQuery = []\<rparr> =
     (if sch \<noteq> [] then sch @ '':'' else []) @ (if h \<noteq> [] then ''//'' @ escape h encodeHost else [])"
  by (simp add: url_String_def EscapedPath_def Let_def)

lemma ProbeCSPUri_signed:
  assumes "is_S3Storage (Storage d)" and "\<not> Proxy d"
    and "WriteBytes w cspKey [] = Inr n" and "probeSigned w d = Inr u"
  shows "ProbeCSPUri w d =
           ((url_String \<lparr>Scheme = Scheme u, Host = Host u, Path = [], RawQuery = []\<rparr>, None),
            [CallWriteBytes cspKey [], CallPresignedGetObject (Bucket d) cspKey (1 * time_Second) []]
            @ deferred_Delete w d)"
  using assms by (simp add: ProbeCSPUri_def Put_def probeSigned_def Let_def)

lemma ProbeCSPUri_unsigned:
  assumes "is_S3Storage (Storage d)" and "\<not> Proxy d"
    and "WriteBytes w cspKey [] = Inr n" and "probeSigned w d = Inl err"
  shows "ProbeCSPUri w d =
           (([], Some err),
            [CallWriteBytes cspKey [], CallPresignedGetObject (Bucket d) cspKey (1 * time_Second) []]
            @ deferred_Delete w d)"
  using assms by (simp add: ProbeCSPUri_def Put_def probeSigned_def Let_def)

lemma ProbeCSPUri_unwritten:
  assumes "is_S3Storage (Storage d)" and "\<not> Proxy d"
    and "WriteBytes w cspKey [] = Inl err"
  shows "ProbeCSPUri w d =
           (([], Some (gtserror_Newf w
               (''error putting file in bucket at key '' @ cspKey @ '': '' @ error_Error err) err)),
            [CallWriteBytes cspKey []])"
  using assms by (simp add: ProbeCSPUri_def Put_def)

lemma deferred_Delete_cases:
  "deferred_Delete w d =
     (case Remove w cspKey of
        None \<Rightarrow> [CallRemove cspKey]
      | Some err \<Rightarrow> [CallRemove cspKey,
          LogWarnf (''error deleting file from bucket at key '' @ cspKey @ '' (''
                   @ error_Error err
                   @ ''); you may want to remove this file manually from your S3 bucket'')])"
  by (simp add: deferred_Delete_def Delete_def split: option.splits)

lemma ProbeCSPUri_Remove_irrelevant:
  "fst (ProbeCSPUri (w\<lparr>Remove := r\<rparr>) d) = fst (ProbeCSPUri w d)"
  by (simp add: ProbeCSPUri_def Put_def Let_def split: sum.splits)

text \<open>
  Claim C4. On a successful probe (S3 store, proxying off, the probe file written, the
  probe URL signed as \<open>u\<close>) \<open>ProbeCSPUri\<close> returns no error and the rendering of the
  URL that has the scheme and the host of \<open>u\<close> and nothing else. When the scheme and
  the host are not empty and the host has no byte that URL rendering escapes, that string
  is exactly scheme, \<open>://\<close>, host. The path and the query of \<open>u\<close> do not reach the
  result: a signer answering with any other path and query gives the same result.
\<close>

theorem ProbeCSPUri_scheme_and_host:
  assumes s3: "is_S3Storage (Storage d)" and np: "\<not> Proxy d"
    and wr: "WriteBytes w cspKey [] = Inr n" and sg: "probeSigned w d = Inr u"
  shows "fst (ProbeCSPUri w d) =
           (url_String \<lparr>Scheme = Scheme u, Host = Host u, Path = [], RawQuery = []\<rparr>, None)
         \<and> (Scheme u \<noteq> [] \<and> Host u \<noteq> [] \<and> (\<forall>c\<in>set (Host u). \<not> shouldEscape c encodeHost) \<longrightarrow>
              fst (ProbeCSPUri w d) = (Scheme u @ ''://'' @ Host u, None))
         \<and> (\<forall>p q. fst (ProbeCSPUri
                          (w\<lparr>PresignedGetObject :=
                                (\<lambda>bucket key ttl params. Inr (u\<lparr>Path := p, RawQuery := q\<rparr>))\<rparr>) d)
                    = fst (ProbeCSPUri w d))"
proof (intro conjI allI impI)
  show a: "fst (ProbeCSPUri w d) =
           (url_String \<lparr>Scheme = Scheme u, Host = Host u, Path = [], RawQuery = []\<rparr>, None)"
    by (simp add: ProbeCSPUri_signed [OF s3 np wr sg])
  show "fst (ProbeCSPUri w d) = (Scheme u @ ''://'' @ Host u, None)"
    if "Scheme u \<noteq> [] \<and> Host u \<noteq> [] \<and> (\<forall>c\<in>set (Host u). \<not> shouldEscape c encodeHost)"
    using that by (simp add: a url_String_stripped escape_unchanged)
  show "fst (ProbeCSPUri (w\<lparr>PresignedGetObject :=
                                (\<lambda>bucket key ttl params. Inr (u\<lparr>Path := p, RawQuery := q\<rparr>))\<rparr>) d)
          = fst (ProbeCSPUri w d)" for p q
  proof -
    let ?w = "w\<lparr>PresignedGetObject := (\<lambda>bucket key ttl params. Inr (u\<lparr>Path := p, RawQuery := q\<rparr>))\<rparr>"
    have wr': "WriteBytes ?w cspKey [] = Inr n" using wr by simp
    have sg': "probeSigned ?w d = Inr (u\<lparr>Path := p, RawQuery := q\<rparr>)"
      by (simp add: probeSigned_def)
    show ?thesis
      by (simp add: a ProbeCSPUri_signed [OF s3 np wr' sg'])
  qed
qed

text \<open>The scenario of the spec: the signed URL
  \<open>https://cdn.example.com/bucket/gotosocial-csp-probe?X-Sig=...\<close> yields
  \<open>https://cdn.example.com\<close>.\<close>

lemma example_probe:
  "WriteBytes example_world cspKey [] = Inr 0" "probeSigned example_world s3_driver = Inr example_url"
  by (simp_all add: example_world_def probeSigned_def)

lemma example_host_plain: "\<forall>c\<in>set (Host example_url). \<not> shouldEscape c encodeHost"
  by (simp add: example_url_def shouldEscape_def alnum_def)

theorem ProbeCSPUri_scheme_and_host_witness:
  "url_String example_url = ''https://cdn.example.com/bucket/gotosocial-csp-probe?X-Sig=...''
   \<and> probeSigned example_world s3_driver = Inr example_url
   \<and> fst (ProbeCSPUri example_world s3_driver) = (''https://cdn.example.com'', None)"
proof -
  have full: "url_String example_url = ''https://cdn.example.com/bucket/gotosocial-csp-probe?X-Sig=...''"
    by (simp add: example_url_def url_String_def EscapedPath_def shouldEscape_def alnum_def Let_def)
  have plain: "Scheme example_url \<noteq> [] \<and> Host example_url \<noteq> []
               \<and> (\<forall>c\<in>set (Host example_url). \<not> shouldEscape c encodeHost)"
    using example_host_plain by (simp add: example_url_def)
  from ProbeCSPUri_scheme_and_host [OF s3_driver_fields(1,2) example_probe] plain
  have "fst (ProbeCSPUri example_world s3_driver) = (Scheme example_url @ ''://'' @ Host example_url, None)"
    by blast
  then have "fst (ProbeCSPUri example_world s3_driver) = (''https://cdn.example.com'', None)"
    by (simp add: example_url_def)
  with full example_probe(2) show ?thesis by blast
qed

text \<open>The deferred removal always asks the store to remove the probe key.\<close>

lemma CallRemove_deferred: "CallRemove cspKey \<in> set (deferred_Delete w d)"
  by (simp add: deferred_Delete_cases split: option.splits)

text \<open>
  Claim C5. For an S3 driver with proxying off:
  \<^item> when writing the probe file fails, \<open>ProbeCSPUri\<close> returns the empty string and an
    error (the write error wrapped by \<open>gtserror.Newf\<close>);
  \<^item> when the file is written and signing fails, it returns the empty string and the
    signing error, and the removal of the probe key is among the calls made;
  \<^item> when the file is written and the URL signed, it returns no error, and the removal
    of the probe key is among the calls made;
  \<^item> what the removal answers does not change the returned string and error;
  \<^item> when the removal fails, the calls made are the write, the signing request, the
    removal and one warning written to the log, and nothing else.
\<close>

theorem ProbeCSPUri_error_phases:
  assumes s3: "is_S3Storage (Storage d)" and np: "\<not> Proxy d"
  shows "(\<forall>err. WriteBytes w cspKey [] = Inl err \<longrightarrow>
            (\<exists>e. fst (ProbeCSPUri w d) = ([], Some e)
                \<and> e = gtserror_Newf w
                        (''error putting file in bucket at key '' @ cspKey @ '': '' @ error_Error err) err))
         \<and> (\<forall>n err. WriteBytes w cspKey [] = Inr n \<and> probeSigned w d = Inl err \<longrightarrow>
               fst (ProbeCSPUri w d) = ([], Some err)
               \<and> CallRemove cspKey \<in> set (snd (ProbeCSPUri w d)))
         \<and> (\<forall>n u. WriteBytes w cspKey [] = Inr n \<and> probeSigned w d = Inr u \<longrightarrow>
               snd (fst (ProbeCSPUri w d)) = None
               \<and> CallRemove cspKey \<in> set (snd (ProbeCSPUri w d)))
         \<and> (\<forall>r. fst (ProbeCSPUri (w\<lparr>Remove := r\<rparr>) d) = fst (ProbeCSPUri w d))
         \<and> (\<forall>n err. WriteBytes w cspKey [] = Inr n \<and> Remove w cspKey = Some err \<longrightarrow>
               (\<exists>msg. snd (ProbeCSPUri w d) =
                  [CallWriteBytes cspKey [],
                   CallPresignedGetObject (Bucket d) cspKey (1 * time_Second) [],
                   CallRemove cspKey, LogWarnf msg]))"
proof (intro conjI allI impI)
  fix err assume "WriteBytes w cspKey [] = Inl err"
  from ProbeCSPUri_unwritten [OF s3 np this]
  show "\<exists>e. fst (ProbeCSPUri w d) = ([], Some e)
           \<and> e = gtserror_Newf w
                   (''error putting file in bucket at key '' @ cspKey @ '': '' @ error_Error err) err"
    by simp
next
  fix n err assume a: "WriteBytes w cspKey [] = Inr n \<and> probeSigned w d = Inl err"
  then have p: "ProbeCSPUri w d =
           (([], Some err),
            [CallWriteBytes cspKey [], CallPresignedGetObject (Bucket d) cspKey (1 * time_Second) []]
            @ deferred_Delete w d)"
    using ProbeCSPUri_unsigned [OF s3 np] by blast
  show "fst (ProbeCSPUri w d) = ([], Some err)" by (simp add: p)
  show "CallRemove cspKey \<in> set (snd (ProbeCSPUri w d))"
    by (simp add: p CallRemove_deferred)
next
  fix n u assume a: "WriteBytes w cspKey [] = Inr n \<and> probeSigned w d = Inr u"
  then have p: "ProbeCSPUri w d =
           ((url_String \<lparr>Scheme = Scheme u, Host = Host u, Path = [], RawQuery = []\<rparr>, None),
            [CallWriteBytes cspKey [], CallPresignedGetObject (Bucket d) cspKey (1 * time_Second) []]
            @ deferred_Delete w d)"
    using ProbeCSPUri_signed [OF s3 np] by blast
  show "snd (fst (ProbeCSPUri w d)) = None" by (simp add: p)
  show "CallRemove cspKey \<in> set (snd (ProbeCSPUri w d))"
    by (simp add: p CallRemove_deferred)
next
  fix r show "fst (ProbeCSPUri (w\<lparr>Remove := r\<rparr>) d) = fst (ProbeCSPUri w d)"
    by (rule ProbeCSPUri_Remove_irrelevant)
next
  fix n err assume a: "WriteBytes w cspKey [] = Inr n \<and> Remove w cspKey = Some err"
  have dd: "deferred_Delete w d = [CallRemove cspKey,
          LogWarnf (''error deleting file from bucket at key '' @ cspKey @ '' (''
                   @ error_Error err
                   @ ''); you may want to remove this file manually from your S3 bucket'')]"
    using a by (simp add: deferred_Delete_cases)
  show "\<exists>msg. snd (ProbeCSPUri w d) =
                  [CallWriteBytes cspKey [],
                   CallPresignedGetObject (Bucket d) cspKey (1 * time_Second) [],
                   CallRemove cspKey, LogWarnf msg]"
  proof (cases "probeSigned w d")
    case (Inl e)
    from a ProbeCSPUri_unsigned [OF s3 np _ Inl] show ?thesis by (simp add: dd)
  next
    case (Inr u)
    from a ProbeCSPUri_signed [OF s3 np _ Inr] show ?thesis by (simp add: dd)
  qed
qed

text \<open>The probe in the worlds where the write, the signing or the removal fails.\<close>

lemma failing_worlds:
  "WriteBytes unwritten_world cspKey [] = Inl (Error ''disk full'')"
  "WriteBytes unsigned_world cspKey [] = Inr 0"
  "probeSigned unsigned_world s3_driver = Inl (Error ''access denied'')"
  "WriteBytes undeleted_world cspKey [] = Inr 0"
  "probeSigned undeleted_world s3_driver = Inr example_url"
  "Remove undeleted_world cspKey = Some (Error ''timeout'')"
  "undeleted_world = example_world\<lparr>Remove := (\<lambda>key. Some (Error ''timeout''))\<rparr>"
  by (simp_all add: unwritten_world_def unsigned_world_def undeleted_world_def example_world_def
        probeSigned_def)

theorem ProbeCSPUri_error_phases_witness:
  "fst (ProbeCSPUri unwritten_world s3_driver) =
      ([], Some (Wrapped ''error putting file in bucket at key gotosocial-csp-probe: disk full''
                   (Error ''disk full'')))
   \<and> fst (ProbeCSPUri unsigned_world s3_driver) = ([], Some (Error ''access denied''))
   \<and> CallRemove cspKey \<in> set (snd (ProbeCSPUri unsigned_world s3_driver))
   \<and> CallRemove cspKey \<in> set (snd (ProbeCSPUri example_world s3_driver))
   \<and> fst (ProbeCSPUri undeleted_world s3_driver) = fst (ProbeCSPUri example_world s3_driver)
   \<and> (\<exists>msg. snd (ProbeCSPUri undeleted_world s3_driver) =
         [CallWriteBytes cspKey [], CallPresignedGetObject ''bucket'' cspKey 1000000000 [],
          CallRemove cspKey, LogWarnf msg])"
proof -
  note t1 = ProbeCSPUri_error_phases [OF s3_driver_fields(1,2), of unwritten_world]
  note t2 = ProbeCSPUri_error_phases [OF s3_driver_fields(1,2), of unsigned_world]
  note t3 = ProbeCSPUri_error_phases [OF s3_driver_fields(1,2), of example_world]
  note t4 = ProbeCSPUri_error_phases [OF s3_driver_fields(1,2), of undeleted_world]
  have a: "fst (ProbeCSPUri unwritten_world s3_driver) =
      ([], Some (Wrapped ''error putting file in bucket at key gotosocial-csp-probe: disk full''
                   (Error ''disk full'')))"
    using t1 failing_worlds(1)
    by (simp add: unwritten_world_def example_world_def cspKey_def)
  have b: "fst (ProbeCSPUri unsigned_world s3_driver) = ([], Some (Error ''access denied''))
           \<and> CallRemove cspKey \<in> set (snd (ProbeCSPUri unsigned_world s3_driver))"
    using t2 failing_worlds(2,3) by blast
  have c: "CallRemove cspKey \<in> set (snd (ProbeCSPUri example_world s3_driver))"
    using t3 example_probe by blast
  have d: "fst (ProbeCSPUri undeleted_world s3_driver) = fst (ProbeCSPUri example_world s3_driver)"
    using t3 by (simp add: failing_worlds(7))
  have e: "\<exists>msg. snd (ProbeCSPUri undeleted_world s3_driver) =
         [CallWriteBytes cspKey [], CallPresignedGetObject ''bucket'' cspKey 1000000000 [],
          CallRemove cspKey, LogWarnf msg]"
    using t4 failing_worlds(4,6) by (simp add: s3_driver_fields(3) time_Second_def)
  from a b c d e show ?thesis by blast
qed

subsection \<open>Key enumeration\<close>

text \<open>With a recording visitor, the store's enumeration through the driver's function is
  the spec's enumeration of the keys other than \<open>store.lock\<close>; the keys already seen
  are kept in front.\<close>

lemma storage_WalkKeys_recording:
  "storage_WalkKeys (\<lambda>key st. if key = ''store.lock'' then (None, st) else recording walk key st)
       keys failure (s, seen) =
     (case visit walk (filter (\<lambda>k. k \<noteq> ''store.lock'') keys) s of
        (r, s', vs) \<Rightarrow> ((case r of None \<Rightarrow> failure | Some err \<Rightarrow> Some err), s', seen @ vs))"
proof (induction keys arbitrary: s seen)
  case Nil
  then show ?case by simp
next
  case (Cons key keys)
  show ?case
  proof (cases "key = ''store.lock''")
    case True
    then show ?thesis using Cons.IH by simp
  next
    case False
    obtain r s1 where w: "walk key s = (r, s1)" by (cases "walk key s")
    show ?thesis
    proof (cases r)
      case None
      with False w Cons.IH [of s1 "seen @ [key]"] show ?thesis
        by (simp add: recording_def split: prod.splits)
    next
      case (Some err)
      with False w show ?thesis by (simp add: recording_def)
    qed
  qed
qed

text \<open>The spec's enumeration visits a prefix of the keys, all of them when no call fails;
  an error it returns is the one the visitor returned at the last key visited; a visitor
  that never fails is called on every key.\<close>

lemma visit_prefix:
  "visit walk keys s = (r, s', vs) \<Longrightarrow> \<exists>rest. keys = vs @ rest \<and> (r = None \<longrightarrow> rest = [])"
proof (induction keys arbitrary: s r s' vs)
  case Nil
  then show ?case by simp
next
  case (Cons key keys)
  obtain r1 s1 where w: "walk key s = (r1, s1)" by (cases "walk key s")
  show ?case
  proof (cases r1)
    case None
    obtain r2 s2 vs2 where v: "visit walk keys s1 = (r2, s2, vs2)" by (cases "visit walk keys s1")
    from Cons.IH [OF v] Cons.prems w None v show ?thesis by auto
  next
    case (Some err)
    with Cons.prems w show ?thesis by auto
  qed
qed

lemma visit_error:
  "visit walk keys s = (Some err, s', vs) \<Longrightarrow> \<exists>pre key s0. vs = pre @ [key] \<and> walk key s0 = (Some err, s')"
proof (induction keys arbitrary: s vs)
  case Nil
  then show ?case by simp
next
  case (Cons key keys)
  obtain r1 s1 where w: "walk key s = (r1, s1)" by (cases "walk key s")
  show ?case
  proof (cases r1)
    case None
    obtain r2 s2 vs2 where v: "visit walk keys s1 = (r2, s2, vs2)" by (cases "visit walk keys s1")
    from Cons.prems w None v have eq: "r2 = Some err" "s2 = s'" "vs = key # vs2" by auto
    from Cons.IH [of s1 vs2] v eq obtain pre k s0
      where "vs2 = pre @ [k]" "walk k s0 = (Some err, s')" by auto
    then have "vs = (key # pre) @ [k] \<and> walk k s0 = (Some err, s')" using eq by simp
    then show ?thesis by blast
  next
    case (Some e)
    with Cons.prems w have "vs = [] @ [key] \<and> walk key s = (Some err, s')" by auto
    then show ?thesis by blast
  qed
qed

lemma visit_never_failing:
  "\<forall>key s0. fst (walk key s0) = None \<Longrightarrow> fst (visit walk keys s) = None \<and> snd (snd (visit walk keys s)) = keys"
proof (induction keys arbitrary: s)
  case Nil
  then show ?case by simp
next
  case (Cons key keys)
  obtain r1 s1 where w: "walk key s = (r1, s1)" by (cases "walk key s")
  with Cons.prems have "r1 = None" by (metis fst_conv)
  with w Cons.IH [OF Cons.prems, of s1] show ?case by (auto split: prod.splits)
qed

text \<open>
  Claim C7. Let \<open>WalkKeys\<close> run, on any driver, with a visitor whose calls are recorded,
  and let \<open>seen\<close> be the keys it was called with. Then \<open>store.lock\<close> is not among
  them; they are a prefix, in the store's order, of the stored keys other than
  \<open>store.lock\<close>; the run is the spec's enumeration of those keys (its state, its
  visited keys, and its error, or the store's own error when no call failed); a visitor
  that never fails is called on every stored key but \<open>store.lock\<close>; and when the
  visitor returns an error, \<open>WalkKeys\<close> returns that same error and the key at which it
  was returned is the last one visited.
\<close>

theorem WalkKeys_skips_lock_and_stops_on_error:
  assumes run: "WalkKeys w d (recording walk) (s, []) = (res, s', seen)"
  shows "''store.lock'' \<notin> set seen
         \<and> (\<exists>rest. filter (\<lambda>k. k \<noteq> ''store.lock'') (Entries w) = seen @ rest)
         \<and> (case visit walk (filter (\<lambda>k. k \<noteq> ''store.lock'') (Entries w)) s of
               (r, s1, vs) \<Rightarrow> s' = s1 \<and> seen = vs
                  \<and> res = (case r of None \<Rightarrow> WalkFailure w | Some err \<Rightarrow> Some err))
         \<and> ((\<forall>key s0. fst (walk key s0) = None) \<longrightarrow>
               seen = filter (\<lambda>k. k \<noteq> ''store.lock'') (Entries w) \<and> res = WalkFailure w)
         \<and> (\<forall>err. fst (visit walk (filter (\<lambda>k. k \<noteq> ''store.lock'') (Entries w)) s) = Some err \<longrightarrow>
               res = Some err
               \<and> (\<exists>pre key s0. seen = pre @ [key] \<and> walk key s0 = (Some err, s')))"
proof -
  let ?keys = "filter (\<lambda>k. k \<noteq> ''store.lock'') (Entries w)"
  obtain r s1 vs where v: "visit walk ?keys s = (r, s1, vs)" by (cases "visit walk ?keys s")
  from run have eq: "res = (case r of None \<Rightarrow> WalkFailure w | Some err \<Rightarrow> Some err)"
      "s' = s1" "seen = vs"
    by (simp_all add: WalkKeys_def storage_WalkKeys_recording v)
  from visit_prefix [OF v] obtain rest where rest: "?keys = vs @ rest" "r = None \<longrightarrow> rest = []"
    by blast
  have subset: "set seen \<subseteq> set ?keys" using rest(1) eq(3) by (metis set_append Un_upper1)
  have a: "''store.lock'' \<notin> set seen" using subset by auto
  have b: "\<exists>rest. ?keys = seen @ rest" using rest(1) eq(3) by blast
  have c: "case visit walk ?keys s of
               (r, s1, vs) \<Rightarrow> s' = s1 \<and> seen = vs
                  \<and> res = (case r of None \<Rightarrow> WalkFailure w | Some err \<Rightarrow> Some err)"
    using eq by (simp add: v)
  have d: "seen = ?keys \<and> res = WalkFailure w" if "\<forall>key s0. fst (walk key s0) = None"
    using visit_never_failing [OF that, of ?keys s] eq by (simp add: v)
  have e: "res = Some err \<and> (\<exists>pre key s0. seen = pre @ [key] \<and> walk key s0 = (Some err, s'))"
    if "fst (visit walk ?keys s) = Some err" for err
  proof -
    from that have r: "r = Some err" by (simp add: v)
    from visit_error [of walk ?keys s err s1 vs] v r eq show ?thesis by simp
  qed
  from a b c d e show ?thesis by blast
qed

text \<open>The store holds \<open>a.png\<close>, \<open>store.lock\<close> and \<open>b.txt\<close>: a visitor that
  fails on \<open>b.txt\<close> sees the two other keys and its error is returned; a visitor that
  never fails sees the same two keys.\<close>

lemma example_WalkKeys:
  "WalkKeys example_world disk_driver (recording example_walk) (0, []) =
     (Some (Error ''stop''), 2, [''a.png'', ''b.txt''])"
  by (simp add: WalkKeys_def example_world_def recording_def example_walk_def)

lemma example_WalkKeys_all:
  "WalkKeys example_world s3_driver (recording (\<lambda>key n. (None, Suc n))) (0, []) =
     (None, 2, [''a.png'', ''b.txt''])"
  by (simp add: WalkKeys_def example_world_def recording_def)

theorem WalkKeys_skips_lock_and_stops_on_error_witness:
  "Entries example_world = [''a.png'', ''store.lock'', ''b.txt'']
   \<and> WalkKeys example_world disk_driver (recording example_walk) (0, []) =
        (Some (Error ''stop''), 2, [''a.png'', ''b.txt''])
   \<and> ''store.lock'' \<notin> set [''a.png'', ''b.txt'']
   \<and> example_walk ''b.txt'' 1 = (Some (Error ''stop''), 2)
   \<and> WalkKeys example_world s3_driver (recording (\<lambda>key n. (None, Suc n))) (0, []) =
        (None, 2, [''a.png'', ''b.txt''])
   \<and> [''a.png'', ''b.txt''] = filter (\<lambda>k. k \<noteq> ''store.lock'') (Entries example_world)"
proof -
  have a: "''store.lock'' \<notin> set [''a.png'', ''b.txt'']"
    using WalkKeys_skips_lock_and_stops_on_error [OF example_WalkKeys] by blast
  have never: "\<forall>key s0. fst ((\<lambda>key n. (None :: error option, Suc n)) key s0) = None" by simp
  have b: "[''a.png'', ''b.txt''] = filter (\<lambda>k. k \<noteq> ''store.lock'') (Entries example_world)"
    using WalkKeys_skips_lock_and_stops_on_error [OF example_WalkKeys_all] never by blast
  have c: "Entries example_world = [''a.png'', ''store.lock'', ''b.txt'']"
    by (simp add: example_world_def)
  have d: "example_walk ''b.txt'' 1 = (Some (Error ''stop''), 2)"
    by (simp add: example_walk_def)
  from a b c d example_WalkKeys example_WalkKeys_all show ?thesis by blast
qed

end
